theory Spec2Isabelle
  imports Complex_Main
begin

section \<open>The water drop game: state and configuration\<close>

text \<open>
  The program is one class, \<open>CharityWaterGame\<close> (file \<open>script.js\<close>). Its methods mutate
  the fields of the single game object; here every method takes the object and returns
  the updated one. What the page shows (button styles, texts, sounds, console output) is
  left out except for the game-over dialog, whose title records with which argument
  \<open>endGame\<close> ran. Readings the methods take from the browser (the clock and the random
  number at a spawn, the bounding rectangles at an update) are arguments.

  A JavaScript exception leaves the fields as they were when it was raised, so a method
  that can raise returns \<open>Inl (error, state at the raise)\<close> and \<open>Inr state\<close> otherwise.
  Numbers are JavaScript doubles holding integers far below \<open>2^53\<close>; they are \<open>int\<close>.
\<close>

record setting =
  dropSpeed :: int
  spawnRate :: int
  targetScore :: int
  name :: string

text \<open>
  \<open>this.difficultySettings\<close>, set once by the constructor, is a plain object literal. A
  lookup \<open>this.difficultySettings[key]\<close> yields the setting for one of the three keys of
  the table (\<open>Own\<close>). For a key that names a member every object inherits from
  \<open>Object.prototype\<close> it yields that member (\<open>Inherited\<close>): a function or object, not
  \<open>undefined\<close>, so reading a field of it raises nothing, and its \<open>dropSpeed\<close>, \<open>spawnRate\<close> and
  \<open>targetScore\<close> are \<open>undefined\<close>. For every other key the lookup yields \<open>undefined\<close>
  (\<open>Undefined\<close>), and reading a field of that raises a \<open>TypeError\<close>.
\<close>

datatype lookup = Own setting | Inherited | Undefined

definition objectPrototypeKeys :: "string list" where
  "objectPrototypeKeys =
     [''constructor'', ''hasOwnProperty'', ''isPrototypeOf'', ''propertyIsEnumerable'',
      ''toLocaleString'', ''toString'', ''valueOf'', ''__proto__'',
      ''__defineGetter__'', ''__defineSetter__'', ''__lookupGetter__'', ''__lookupSetter__'']"

definition difficultySettings :: "string \<Rightarrow> lookup" where
  "difficultySettings key =
     (if key = ''easy'' then
        Own \<lparr>dropSpeed = 3000, spawnRate = 1500, targetScore = 15, name = ''Easy''\<rparr>
      else if key = ''normal'' then
        Own \<lparr>dropSpeed = 2000, spawnRate = 1000, targetScore = 25, name = ''Normal''\<rparr>
      else if key = ''hard'' then
        Own \<lparr>dropSpeed = 1200, spawnRate = 800, targetScore = 40, name = ''Hard''\<rparr>
      else if key \<in> set objectPrototypeKeys then Inherited
      else Undefined)"

text \<open>
  A drop's id is the string \<open>'drop_' + Date.now() + '_' + Math.floor(Math.random() * 1000)\<close>;
  the code only compares ids for equality, so an id is the pair of the two numbers.
  The \<open>element\<close> field of a drop is its page element and is not part of the record.
\<close>

type_synonym drop_id = "int \<times> nat"

record drop =
  dropId :: drop_id
  collected :: bool

datatype modal_title = Congratulations | KeepTrying

datatype error = TypeError

record game =
  isPlaying :: bool
  isPaused :: bool
  score :: int
  gameTime :: int
  drops :: "drop list"
  gameInterval :: "int option"
  dropSpawnInterval :: "int option"
  timerInterval :: "int option"
  difficulty :: string
  milestones :: "int list"
  achievedMilestones :: "int list"
  cleanupTimers :: "drop_id list"
  gameOverTitle :: "modal_title option"
  modalShown :: bool

text \<open>
  The three interval fields hold the period of the running \<open>setInterval\<close> (\<open>None\<close> for
  \<open>null\<close>). \<open>cleanupTimers\<close> lists the pending 300 ms timeouts that \<open>collectDrop\<close> sets, one
  per collected drop. \<open>gameOverTitle\<close> and \<open>modalShown\<close> are the title and the visibility of
  the game-over dialog.
\<close>

type_synonym outcome = "(error \<times> game) + game"

fun after :: "outcome \<Rightarrow> game" where
  "after (Inl (e, s)) = s"
| "after (Inr s) = s"

text \<open>The constructor.\<close>

definition newGame :: game where
  "newGame =
     \<lparr>isPlaying = False, isPaused = False, score = 0, gameTime = 0, drops = [],
      gameInterval = None, dropSpawnInterval = None, timerInterval = None,
      difficulty = ''normal'', milestones = [10, 20, 30], achievedMilestones = [],
      cleanupTimers = [], gameOverTitle = None, modalShown = False\<rparr>"

section \<open>Starting, resetting, pausing\<close>

definition clearIntervals :: "game \<Rightarrow> game" where
  "clearIntervals s =
     s\<lparr>gameInterval := None, dropSpawnInterval := None, timerInterval := None\<rparr>"

definition resetGame :: "game \<Rightarrow> game" where
  "resetGame s =
     clearIntervals (s\<lparr>score := 0, gameTime := 0, achievedMilestones := [], drops := []\<rparr>)"

text \<open>
  \<open>startGameLoop\<close> reads \<open>settings.spawnRate\<close> while it evaluates the arguments of the first
  \<open>setInterval\<close>: with \<open>settings\<close> undefined this raises before any interval is made. With
  an inherited member the delay is \<open>undefined\<close>, which \<open>setInterval\<close> takes as 0.
\<close>

definition startGameLoop :: "game \<Rightarrow> outcome" where
  "startGameLoop s =
     (case difficultySettings (difficulty s) of
        Undefined \<Rightarrow> Inl (TypeError, s)
      | Inherited \<Rightarrow> Inr (s\<lparr>dropSpawnInterval := Some 0, gameInterval := Some 50\<rparr>)
      | Own st \<Rightarrow> Inr (s\<lparr>dropSpawnInterval := Some (spawnRate st), gameInterval := Some 50\<rparr>))"

definition startTimer :: "game \<Rightarrow> game" where
  "startTimer s = s\<lparr>timerInterval := Some 1000\<rparr>"

definition startGame :: "game \<Rightarrow> outcome" where
  "startGame s =
     (if isPlaying s then Inr s
      else
        (case startGameLoop ((resetGame s)\<lparr>isPlaying := True, isPaused := False\<rparr>) of
           Inl e \<Rightarrow> Inl e
         | Inr s' \<Rightarrow> Inr (startTimer s')))"

definition togglePause :: "game \<Rightarrow> game" where
  "togglePause s = (if \<not> isPlaying s then s else s\<lparr>isPaused := \<not> isPaused s\<rparr>)"

definition showModal :: "game \<Rightarrow> game" where
  "showModal s = s\<lparr>modalShown := True\<rparr>"

definition hideModal :: "game \<Rightarrow> game" where
  "hideModal s = s\<lparr>modalShown := False\<rparr>"

definition playAgain :: "game \<Rightarrow> outcome" where
  "playAgain s = startGame (hideModal s)"

definition changeDifficulty :: "game \<Rightarrow> game" where
  "changeDifficulty s = hideModal s"

text \<open>
  The \<open>change\<close> handler of the difficulty selector: the key is stored first, then
  \<open>updateDifficultyDisplay\<close> reads \<open>settings.targetScore\<close>.
\<close>

definition updateDifficultyDisplay :: "game \<Rightarrow> outcome" where
  "updateDifficultyDisplay s =
     (case difficultySettings (difficulty s) of
        Undefined \<Rightarrow> Inl (TypeError, s)
      | Inherited \<Rightarrow> Inr s
      | Own st \<Rightarrow> Inr s)"

definition selectDifficulty :: "string \<Rightarrow> game \<Rightarrow> outcome" where
  "selectDifficulty key s = updateDifficultyDisplay (s\<lparr>difficulty := key\<rparr>)"

section \<open>Drops\<close>

text \<open>\<open>Array.prototype.findIndex\<close>, with \<open>None\<close> for \<open>-1\<close>.\<close>

fun findIndex :: "('a \<Rightarrow> bool) \<Rightarrow> 'a list \<Rightarrow> nat option" where
  "findIndex P [] = None"
| "findIndex P (x # xs) = (if P x then Some 0 else map_option Suc (findIndex P xs))"

text \<open>
  \<open>spawnDrop\<close> reads \<open>.dropSpeed\<close> of the current setting for the animation before it
  pushes the drop; an \<open>undefined\<close> speed only gives a style value the page ignores.
  \<open>now\<close> is \<open>Date.now()\<close> and \<open>r\<close> is \<open>Math.floor(Math.random() * 1000)\<close>.
\<close>

definition pushDrop :: "int \<Rightarrow> nat \<Rightarrow> game \<Rightarrow> game" where
  "pushDrop now r s = s\<lparr>drops := drops s @ [\<lparr>dropId = (now, r), collected = False\<rparr>]\<rparr>"

definition spawnDrop :: "int \<Rightarrow> nat \<Rightarrow> game \<Rightarrow> outcome" where
  "spawnDrop now r s =
     (case difficultySettings (difficulty s) of
        Undefined \<Rightarrow> Inl (TypeError, s)
      | Inherited \<Rightarrow> Inr (pushDrop now r s)
      | Own st \<Rightarrow> Inr (pushDrop now r s))"

text \<open>
  \<open>checkMilestones\<close>: the \<open>forEach\<close> over \<open>this.milestones\<close>, pushing to
  \<open>this.achievedMilestones\<close> as it goes. The first component of the result lists the
  calls of \<open>showMilestone\<close>, in order.
\<close>

fun milestoneLoop :: "int \<Rightarrow> int list \<Rightarrow> int list \<Rightarrow> int list \<times> int list" where
  "milestoneLoop sc [] ach = ([], ach)"
| "milestoneLoop sc (m # ms) ach =
     (if sc \<ge> m \<and> m \<notin> set ach
      then (case milestoneLoop sc ms (ach @ [m]) of (shown, ach') \<Rightarrow> (m # shown, ach'))
      else milestoneLoop sc ms ach)"

definition checkMilestones :: "game \<Rightarrow> int list \<times> game" where
  "checkMilestones s =
     (case milestoneLoop (score s) (milestones s) (achievedMilestones s) of
        (shown, ach') \<Rightarrow> (shown, s\<lparr>achievedMilestones := ach'\<rparr>))"

datatype collect_result = NotFound | AlreadyCollected | Collected

text \<open>
  \<open>collectDrop\<close>. The two early returns are \<open>NotFound\<close> and \<open>AlreadyCollected\<close>. On success
  the drop is marked, the score incremented, the milestones checked and a timeout set
  that will run \<open>dropCleanup\<close>. The win condition is not looked at here.
\<close>

definition collectDrop :: "drop_id \<Rightarrow> game \<Rightarrow> collect_result \<times> game" where
  "collectDrop i s =
     (case findIndex (\<lambda>d. dropId d = i) (drops s) of
        None \<Rightarrow> (NotFound, s)
      | Some k \<Rightarrow>
          (let d = drops s ! k in
           if collected d then (AlreadyCollected, s)
           else
             (let s1 = s\<lparr>drops := (drops s)[k := d\<lparr>collected := True\<rparr>], score := score s + 1\<rparr>;
                  s2 = snd (checkMilestones s1)
              in (Collected, s2\<lparr>cleanupTimers := cleanupTimers s2 @ [i]\<rparr>))))"

text \<open>The body of the timeout: \<open>splice(currentIndex, 1)\<close> on the first drop with the id.\<close>

definition dropCleanup :: "drop_id \<Rightarrow> game \<Rightarrow> game" where
  "dropCleanup i s =
     (case findIndex (\<lambda>d. dropId d = i) (drops s) of
        None \<Rightarrow> s
      | Some k \<Rightarrow> s\<lparr>drops := take k (drops s) @ drop (Suc k) (drops s)\<rparr>)"

text \<open>
  What \<open>getBoundingClientRect\<close> returns at an update: the top of each drop's element and
  the bottom of the game area.
\<close>

record geometry =
  rectTop :: "drop_id \<Rightarrow> real"
  areaBottom :: real

definition fallen :: "geometry \<Rightarrow> drop \<Rightarrow> bool" where
  "fallen g d = (rectTop g (dropId d) > areaBottom g)"

definition updateDrops :: "geometry \<Rightarrow> game \<Rightarrow> game" where
  "updateDrops g s =
     s\<lparr>drops := filter (\<lambda>d. if collected d then False
                             else if fallen g d then False
                             else True) (drops s)\<rparr>"

section \<open>Winning\<close>

text \<open>
  \<open>showWinModal\<close> sets the title, then reads \<open>settings.name\<close> for the message;
  \<open>showGameOverModal\<close> reads \<open>settings.targetScore\<close> before it sets the title. With an
  inherited member neither read raises.
\<close>

definition showWinModal :: "game \<Rightarrow> outcome" where
  "showWinModal s =
     (let s1 = s\<lparr>gameOverTitle := Some Congratulations\<rparr> in
      case difficultySettings (difficulty s) of
        Undefined \<Rightarrow> Inl (TypeError, s1)
      | Inherited \<Rightarrow> Inr (showModal s1)
      | Own st \<Rightarrow> Inr (showModal s1))"

definition showGameOverModal :: "game \<Rightarrow> outcome" where
  "showGameOverModal s =
     (case difficultySettings (difficulty s) of
        Undefined \<Rightarrow> Inl (TypeError, s)
      | Inherited \<Rightarrow> Inr (showModal (s\<lparr>gameOverTitle := Some KeepTrying\<rparr>))
      | Own st \<Rightarrow> Inr (showModal (s\<lparr>gameOverTitle := Some KeepTrying\<rparr>)))"

definition endGame :: "bool \<Rightarrow> game \<Rightarrow> outcome" where
  "endGame won s =
     (let s1 = clearIntervals (s\<lparr>isPlaying := False\<rparr>) in
      if won then showWinModal s1 else showGameOverModal s1)"

text \<open>
  \<open>checkWinCondition\<close>: with an inherited member the target is \<open>undefined\<close> and the
  comparison \<open>this.score >= undefined\<close> is false.
\<close>

definition checkWinCondition :: "game \<Rightarrow> outcome" where
  "checkWinCondition s =
     (case difficultySettings (difficulty s) of
        Undefined \<Rightarrow> Inl (TypeError, s)
      | Inherited \<Rightarrow> Inr s
      | Own st \<Rightarrow> if score s \<ge> targetScore st then endGame True s else Inr s)"

section \<open>The callbacks\<close>

text \<open>The three interval callbacks of \<open>startGameLoop\<close> and \<open>startTimer\<close>.\<close>

definition spawnPulse :: "int \<Rightarrow> nat \<Rightarrow> game \<Rightarrow> outcome" where
  "spawnPulse now r s = (if \<not> isPaused s \<and> isPlaying s then spawnDrop now r s else Inr s)"

definition gamePulse :: "geometry \<Rightarrow> game \<Rightarrow> outcome" where
  "gamePulse g s =
     (if \<not> isPaused s \<and> isPlaying s then checkWinCondition (updateDrops g s) else Inr s)"

definition timerPulse :: "game \<Rightarrow> game" where
  "timerPulse s =
     (if \<not> isPaused s \<and> isPlaying s then s\<lparr>gameTime := gameTime s + 1\<rparr> else s)"

text \<open>
  Everything that can happen to the game object: a click on a button or a drop, a change
  of the selector, a firing interval (only while it is set) or timeout (only while
  pending). An exception raised by a handler ends that handler only.
\<close>

datatype event =
    StartClick
  | PauseClick
  | PlayAgainClick
  | ChangeDifficultyClick
  | BackdropClick
  | DifficultyChange string
  | DropClick drop_id
  | SpawnPulse int nat
  | GamePulse geometry
  | TimerPulse
  | CleanupTimeout drop_id

fun step :: "event \<Rightarrow> game \<Rightarrow> game" where
  "step StartClick s = after (startGame s)"
| "step PauseClick s = togglePause s"
| "step PlayAgainClick s = after (playAgain s)"
| "step ChangeDifficultyClick s = changeDifficulty s"
| "step BackdropClick s = hideModal s"
| "step (DifficultyChange key) s = after (selectDifficulty key s)"
| "step (DropClick i) s = snd (collectDrop i s)"
| "step (SpawnPulse now r) s =
     (if dropSpawnInterval s = None then s else after (spawnPulse now r s))"
| "step (GamePulse g) s = (if gameInterval s = None then s else after (gamePulse g s))"
| "step TimerPulse s = (if timerInterval s = None then s else timerPulse s)"
| "step (CleanupTimeout i) s =
     (if i \<in> set (cleanupTimers s)
      then dropCleanup i (s\<lparr>cleanupTimers := remove1 i (cleanupTimers s)\<rparr>)
      else s)"

fun run :: "event list \<Rightarrow> game \<Rightarrow> game" where
  "run [] s = s"
| "run (e # es) s = run es (step e s)"

section \<open>Harnesses and sample states\<close>

text \<open>
  The spec speaks of an evaluation of the milestones at a given score. In the code the
  score is a field, so the evaluation at \<open>v\<close> is \<open>checkMilestones\<close> on the object with
  \<open>score = v\<close>; \<open>evaluateAll\<close> feeds a sequence of scores and collects the batches.
\<close>

definition evaluate :: "int \<Rightarrow> game \<Rightarrow> int list \<times> game" where
  "evaluate v s = checkMilestones (s\<lparr>score := v\<rparr>)"

fun evaluateAll :: "int list \<Rightarrow> game \<Rightarrow> int list list" where
  "evaluateAll [] s = []"
| "evaluateAll (v # vs) s = fst (evaluate v s) # evaluateAll vs (snd (evaluate v s))"

text \<open>
  The first component of an id is the clock reading at the spawn. \<open>spec_expired\<close> follows
  the spec's words for expiry (\<open>now - spawnedAtMs \<ge> fallDurationMs\<close>); the code has no such
  test, \<open>updateDrops\<close> above is what it does.
\<close>

definition spawnedAtMs :: "drop \<Rightarrow> int" where
  "spawnedAtMs d = fst (dropId d)"

definition spec_expired :: "int \<Rightarrow> int \<Rightarrow> drop \<Rightarrow> bool" where
  "spec_expired now fallDurationMs d = (now - spawnedAtMs d \<ge> fallDurationMs)"

text \<open>
  Sample states: the game right after a start on the default difficulty, the same with
  one live drop, and the same one collection short of the target of 25. Two sample
  readings of the page: every drop well inside the game area, every drop below it.
\<close>

definition started :: game where
  "started = after (startGame newGame)"

definition nearWin :: game where
  "nearWin = started\<lparr>score := 24, drops := [\<lparr>dropId = (0, 0), collected = False\<rparr>]\<rparr>"

definition oneDrop :: game where
  "oneDrop = started\<lparr>drops := [\<lparr>dropId = (0, 0), collected = False\<rparr>]\<rparr>"

definition belowGeometry :: geometry where
  "belowGeometry = \<lparr>rectTop = (\<lambda>i. 700), areaBottom = 600\<rparr>"

definition anyGeometry :: geometry where
  "anyGeometry = \<lparr>rectTop = (\<lambda>i. 100), areaBottom = 600\<rparr>"

text \<open>
  More sample states: the game won from \<open>nearWin\<close>, and the fresh game after the
  selector was set to a key that is not in the table: one that no object has, and one
  that every object inherits.
\<close>

definition wonGame :: game where
  "wonGame = step (GamePulse anyGeometry) (snd (collectDrop (0, 0) nearWin))"

definition unknownKeyGame :: game where
  "unknownKeyGame = step (DifficultyChange ''extreme'') newGame"

definition inheritedKeyGame :: game where
  "inheritedKeyGame = step (DifficultyChange ''constructor'') newGame"













section \<open>Basic facts\<close>

lemma findIndex_map: "findIndex (\<lambda>d. P (f d)) xs = findIndex P (map f xs)"
  by (induction xs) auto

lemma findIndex_Some_D:
  "findIndex P xs = Some k \<Longrightarrow> k < length xs \<and> P (xs ! k) \<and> (\<forall>j<k. \<not> P (xs ! j))"
proof (induction xs arbitrary: k)
  case Nil
  then show ?case by simp
next
  case (Cons x xs)
  show ?case
  proof (cases "P x")
    case True
    with Cons.prems show ?thesis by simp
  next
    case False
    with Cons.prems obtain k' where k': "findIndex P xs = Some k'" "k = Suc k'"
      by auto
    from Cons.IH[OF k'(1)] False k'(2) show ?thesis
      by (auto simp: nth_Cons split: nat.splits)
  qed
qed

lemma milestoneLoop_fst_snd:
  "snd (milestoneLoop sc ms ach) = ach @ fst (milestoneLoop sc ms ach)"
  by (induction sc ms ach rule: milestoneLoop.induct) (auto split: prod.splits)

lemma checkMilestones_fields:
  "isPlaying (snd (checkMilestones s)) = isPlaying s"
  "isPaused (snd (checkMilestones s)) = isPaused s"
  "score (snd (checkMilestones s)) = score s"
  "gameTime (snd (checkMilestones s)) = gameTime s"
  "drops (snd (checkMilestones s)) = drops s"
  "gameInterval (snd (checkMilestones s)) = gameInterval s"
  "dropSpawnInterval (snd (checkMilestones s)) = dropSpawnInterval s"
  "timerInterval (snd (checkMilestones s)) = timerInterval s"
  "difficulty (snd (checkMilestones s)) = difficulty s"
  "milestones (snd (checkMilestones s)) = milestones s"
  "cleanupTimers (snd (checkMilestones s)) = cleanupTimers s"
  "gameOverTitle (snd (checkMilestones s)) = gameOverTitle s"
  "modalShown (snd (checkMilestones s)) = modalShown s"
  by (simp_all add: checkMilestones_def split: prod.splits)

lemma collectDrop_cases:
  "(fst (collectDrop i s) = NotFound \<and> snd (collectDrop i s) = s
      \<and> findIndex (\<lambda>d. dropId d = i) (drops s) = None)
   \<or> (\<exists>k. fst (collectDrop i s) = AlreadyCollected \<and> snd (collectDrop i s) = s
        \<and> findIndex (\<lambda>d. dropId d = i) (drops s) = Some k \<and> collected (drops s ! k))
   \<or> (\<exists>k. fst (collectDrop i s) = Collected
        \<and> findIndex (\<lambda>d. dropId d = i) (drops s) = Some k \<and> \<not> collected (drops s ! k)
        \<and> drops (snd (collectDrop i s)) = (drops s)[k := (drops s ! k)\<lparr>collected := True\<rparr>]
        \<and> score (snd (collectDrop i s)) = score s + 1)"
  by (auto simp: collectDrop_def Let_def checkMilestones_fields split: option.splits lookup.splits)

lemma started_eq:
  "started = newGame\<lparr>isPlaying := True, dropSpawnInterval := Some 1000,
     gameInterval := Some 50, timerInterval := Some 1000\<rparr>"
  by (simp add: started_def startGame_def newGame_def resetGame_def clearIntervals_def
      startGameLoop_def difficultySettings_def startTimer_def)

lemma collectDrop_fields:
  "isPlaying (snd (collectDrop i s)) = isPlaying s"
  "isPaused (snd (collectDrop i s)) = isPaused s"
  "gameTime (snd (collectDrop i s)) = gameTime s"
  "gameInterval (snd (collectDrop i s)) = gameInterval s"
  "dropSpawnInterval (snd (collectDrop i s)) = dropSpawnInterval s"
  "timerInterval (snd (collectDrop i s)) = timerInterval s"
  "difficulty (snd (collectDrop i s)) = difficulty s"
  "milestones (snd (collectDrop i s)) = milestones s"
  "gameOverTitle (snd (collectDrop i s)) = gameOverTitle s"
  "modalShown (snd (collectDrop i s)) = modalShown s"
  by (simp_all add: collectDrop_def Let_def checkMilestones_fields split: option.splits lookup.splits)

lemma updateDrops_fields:
  "isPlaying (updateDrops g s) = isPlaying s"
  "isPaused (updateDrops g s) = isPaused s"
  "score (updateDrops g s) = score s"
  "gameTime (updateDrops g s) = gameTime s"
  "difficulty (updateDrops g s) = difficulty s"
  "gameOverTitle (updateDrops g s) = gameOverTitle s"
  "timerInterval (updateDrops g s) = timerInterval s"
  by (simp_all add: updateDrops_def)

lemma gamePulse_win:
  assumes "isPlaying s" "\<not> isPaused s" "difficultySettings (difficulty s) = Own st"
  shows "gamePulse g s =
     (if targetScore st \<le> score s
      then Inr ((updateDrops g s)\<lparr>isPlaying := False, gameInterval := None,
                 dropSpawnInterval := None, timerInterval := None,
                 gameOverTitle := Some Congratulations, modalShown := True\<rparr>)
      else Inr (updateDrops g s))"
  using assms
  by (simp add: gamePulse_def checkWinCondition_def updateDrops_fields endGame_def
      showWinModal_def showModal_def clearIntervals_def Let_def)

lemma milestoneLoop_fresh:
  "set (fst (milestoneLoop sc ms ach)) \<inter> set ach = {} \<and> distinct (fst (milestoneLoop sc ms ach))"
proof (induction sc ms ach rule: milestoneLoop.induct)
  case (1 sc ach)
  then show ?case by simp
next
  case (2 sc m ms ach)
  show ?case
  proof (cases "sc \<ge> m \<and> m \<notin> set ach")
    case True
    with 2(1) show ?thesis by (auto split: prod.splits)
  next
    case False
    with 2(2) show ?thesis by auto
  qed
qed

lemma milestoneLoop_covers:
  "m \<in> set ms \<Longrightarrow> m \<le> sc \<Longrightarrow> m \<in> set (snd (milestoneLoop sc ms ach))"
proof (induction sc ms ach rule: milestoneLoop.induct)
  case (1 sc ach)
  then show ?case by simp
next
  case (2 sc m' ms ach)
  show ?case
  proof (cases "sc \<ge> m' \<and> m' \<notin> set ach")
    case True
    show ?thesis
    proof (cases "m = m'")
      case True
      have "m' \<in> set (snd (milestoneLoop sc ms (ach @ [m'])))"
        by (simp add: milestoneLoop_fst_snd[of sc ms "ach @ [m']"])
      with True \<open>sc \<ge> m' \<and> m' \<notin> set ach\<close> show ?thesis by (auto split: prod.splits)
    next
      case False
      with 2(1)[OF True] 2(3,4) True show ?thesis by (auto split: prod.splits)
    qed
  next
    case False
    show ?thesis
    proof (cases "m = m'")
      case True
      with False 2(4) have "m \<in> set ach" by auto
      then have "m \<in> set (snd (milestoneLoop sc ms ach))"
        by (simp add: milestoneLoop_fst_snd[of sc ms ach])
      with False show ?thesis by auto
    next
      case nm: False
      with 2(2)[OF False] 2(3,4) False show ?thesis by auto
    qed
  qed
qed

lemma milestoneLoop_done:
  "(\<And>m. m \<in> set ms \<Longrightarrow> m \<le> sc \<Longrightarrow> m \<in> set ach) \<Longrightarrow> milestoneLoop sc ms ach = ([], ach)"
  by (induction ms) auto

lemma milestoneLoop_filter:
  "distinct ms \<Longrightarrow>
   fst (milestoneLoop sc ms ach) = filter (\<lambda>m. m \<le> sc \<and> m \<notin> set ach) ms"
proof (induction sc ms ach rule: milestoneLoop.induct)
  case (1 sc ach)
  then show ?case by simp
next
  case (2 sc m ms ach)
  from 2(3) have m: "m \<notin> set ms" and d: "distinct ms" by simp_all
  show ?case
  proof (cases "sc \<ge> m \<and> m \<notin> set ach")
    case True
    have "filter (\<lambda>x. x \<le> sc \<and> x \<notin> set (ach @ [m])) ms
          = filter (\<lambda>x. x \<le> sc \<and> x \<notin> set ach) ms"
      using m by (intro filter_cong) auto
    with 2(1)[OF True d] True show ?thesis by (auto split: prod.splits)
  next
    case False
    with 2(2)[OF False d] show ?thesis by auto
  qed
qed

lemma evaluate_simps:
  "fst (evaluate v s) = fst (milestoneLoop v (milestones s) (achievedMilestones s))"
  "achievedMilestones (snd (evaluate v s)) = achievedMilestones s @ fst (evaluate v s)"
  "milestones (snd (evaluate v s)) = milestones s"
  using milestoneLoop_fst_snd[of v "milestones s" "achievedMilestones s"]
  by (auto simp: evaluate_def checkMilestones_def split: prod.splits)

lemma evaluateAll_fresh:
  "distinct (concat (evaluateAll vs s))
   \<and> set (concat (evaluateAll vs s)) \<inter> set (achievedMilestones s) = {}"
proof (induction vs arbitrary: s)
  case Nil
  then show ?case by simp
next
  case (Cons v vs)
  let ?b = "fst (evaluate v s)"
  let ?s' = "snd (evaluate v s)"
  from Cons.IH[of ?s'] have ih: "distinct (concat (evaluateAll vs ?s'))"
    "set (concat (evaluateAll vs ?s')) \<inter> (set (achievedMilestones s) \<union> set ?b) = {}"
    by (simp_all add: evaluate_simps)
  from milestoneLoop_fresh[of v "milestones s" "achievedMilestones s"]
  have b: "set ?b \<inter> set (achievedMilestones s) = {}" "distinct ?b"
    by (simp_all add: evaluate_simps)
  from ih b show ?case by auto
qed

lemma evaluate_again:
  assumes "b \<le> a"
  shows "evaluate b (snd (evaluate a s)) = ([], (snd (evaluate a s))\<lparr>score := b\<rparr>)"
proof -
  let ?s' = "snd (evaluate a s)"
  have cov: "m \<in> set (achievedMilestones ?s')" if "m \<in> set (milestones ?s')" "m \<le> b" for m
  proof -
    from that assms have "m \<in> set (milestones s)" "m \<le> a" by (simp_all add: evaluate_simps)
    from milestoneLoop_covers[OF this, of "achievedMilestones s"]
    show ?thesis by (auto simp: evaluate_def checkMilestones_def split: prod.splits)
  qed
  have "milestoneLoop b (milestones ?s') (achievedMilestones ?s') = ([], achievedMilestones ?s')"
    by (rule milestoneLoop_done) (rule cov)
  then show ?thesis by (simp add: evaluate_def checkMilestones_def)
qed

lemma wonGame_eq: "wonGame = newGame\<lparr>score := 25, drops := [], achievedMilestones := [10, 20],
    cleanupTimers := [(0, 0)], gameOverTitle := Some Congratulations, modalShown := True\<rparr>"
  by (simp add: wonGame_def nearWin_def started_eq newGame_def collectDrop_def
      checkMilestones_def gamePulse_def updateDrops_def checkWinCondition_def
      difficultySettings_def endGame_def clearIntervals_def showWinModal_def showModal_def)

lemma paused_step:
  assumes "isPlaying s" "isPaused s" "e \<noteq> PauseClick"
  shows "isPlaying (step e s) \<and> isPaused (step e s) \<and> gameTime (step e s) = gameTime s
     \<and> timerInterval (step e s) = timerInterval s"
proof (cases e)
  case (DifficultyChange key)
  then show ?thesis using assms
    by (simp add: selectDifficulty_def updateDifficultyDisplay_def split: option.splits lookup.splits)
next
  case (DropClick i)
  then show ?thesis using assms by (simp add: collectDrop_fields)
next
  case (CleanupTimeout i)
  then show ?thesis using assms by (simp add: dropCleanup_def split: option.splits lookup.splits)
qed (use assms in \<open>simp_all add: startGame_def playAgain_def hideModal_def changeDifficulty_def
      spawnPulse_def gamePulse_def timerPulse_def\<close>)

lemma paused_run:
  "isPlaying s \<Longrightarrow> isPaused s \<Longrightarrow> PauseClick \<notin> set es \<Longrightarrow>
   isPlaying (run es s) \<and> isPaused (run es s) \<and> gameTime (run es s) = gameTime s
     \<and> timerInterval (run es s) = timerInterval s"
proof (induction es arbitrary: s)
  case Nil
  then show ?case by simp
next
  case (Cons e es)
  from Cons.prems have ne: "e \<noteq> PauseClick" and rest: "PauseClick \<notin> set es" by auto
  from paused_step[OF Cons.prems(1,2) ne] Cons.IH[of "step e s"] rest
  show ?case by simp
qed

lemma endGame_won:
  "difficultySettings (difficulty s) = Own st \<Longrightarrow>
   endGame True s = Inr (s\<lparr>isPlaying := False, gameInterval := None,
                 dropSpawnInterval := None, timerInterval := None,
                 gameOverTitle := Some Congratulations, modalShown := True\<rparr>)"
  by (simp add: endGame_def showWinModal_def showModal_def clearIntervals_def Let_def)

lemma gamePulse_title:
  "gameOverTitle (after (gamePulse g s)) = gameOverTitle s
   \<or> gameOverTitle (after (gamePulse g s)) = Some Congratulations"
  by (auto simp: gamePulse_def checkWinCondition_def updateDrops_fields endGame_won
      split: option.splits lookup.splits)

lemma step_title:
  "gameOverTitle (step e s) = gameOverTitle s \<or> gameOverTitle (step e s) = Some Congratulations"
proof (cases e)
  case (GamePulse g)
  then show ?thesis using gamePulse_title[of g s] by auto
next
  case (DropClick i)
  then show ?thesis by (simp add: collectDrop_fields)
next
  case (DifficultyChange key)
  then show ?thesis
    by (simp add: selectDifficulty_def updateDifficultyDisplay_def split: option.splits lookup.splits)
next
  case (CleanupTimeout i)
  then show ?thesis by (simp add: dropCleanup_def split: option.splits lookup.splits)
next
  case (SpawnPulse now r)
  then show ?thesis by (simp add: spawnPulse_def spawnDrop_def pushDrop_def split: option.splits lookup.splits)
qed (simp_all add: startGame_def startGameLoop_def resetGame_def clearIntervals_def
      startTimer_def playAgain_def hideModal_def changeDifficulty_def togglePause_def
      timerPulse_def split: option.splits lookup.splits)

lemma run_title:
  "gameOverTitle s \<noteq> Some KeepTrying \<Longrightarrow> gameOverTitle (run es s) \<noteq> Some KeepTrying"
proof (induction es arbitrary: s)
  case Nil
  then show ?case by simp
next
  case (Cons e es)
  from step_title[of e s] Cons.prems have "gameOverTitle (step e s) \<noteq> Some KeepTrying"
    by auto
  from Cons.IH[OF this] show ?case by simp
qed

lemma step_keeps_playing:
  assumes "isPlaying s" "\<forall>g. e \<noteq> GamePulse g"
  shows "isPlaying (step e s)"
proof (cases e)
  case (DifficultyChange key)
  then show ?thesis using assms
    by (simp add: selectDifficulty_def updateDifficultyDisplay_def split: option.splits lookup.splits)
next
  case (DropClick i)
  then show ?thesis using assms by (simp add: collectDrop_fields)
next
  case (CleanupTimeout i)
  then show ?thesis using assms by (simp add: dropCleanup_def split: option.splits lookup.splits)
next
  case (SpawnPulse now r)
  then show ?thesis using assms by (simp add: spawnPulse_def spawnDrop_def pushDrop_def split: option.splits lookup.splits)
qed (use assms in \<open>simp_all add: startGame_def playAgain_def hideModal_def changeDifficulty_def
      togglePause_def timerPulse_def\<close>)

lemma pulse_ends:
  assumes "isPlaying s" "\<not> isPlaying (step (GamePulse g) s)"
  shows "\<not> isPaused s \<and> gameInterval s \<noteq> None
     \<and> (\<exists>st. difficultySettings (difficulty s) = Own st \<and> targetScore st \<le> score s)
     \<and> gameOverTitle (step (GamePulse g) s) = Some Congratulations"
proof -
  from assms have gi: "gameInterval s \<noteq> None" by (cases "gameInterval s") auto
  with assms have a: "\<not> isPlaying (after (gamePulse g s))" by auto
  with assms(1) have np: "\<not> isPaused s" by (auto simp: gamePulse_def)
  from a assms(1) np obtain st where st: "difficultySettings (difficulty s) = Own st"
    by (cases "difficultySettings (difficulty s)")
      (auto simp: gamePulse_def checkWinCondition_def updateDrops_fields)
  from gamePulse_win[OF assms(1) np st, of g] a assms(1)
  have "targetScore st \<le> score s"
    by (auto simp: updateDrops_fields split: if_splits)
  with gamePulse_win[OF assms(1) np st, of g] gi np st show ?thesis by auto
qed














section \<open>Win detection\<close>

text \<open>
  Claim C1, as stated: a \<open>collectDrop\<close> that raises the score to the target ends the
  session, won, within that call. It does not: at score 24 on the default difficulty
  (target 25) the collection succeeds, the score is 25 and the game is still playing with
  no dialog title set.
\<close>

theorem collect_leaves_win_to_pulse_counterexample:
  "fst (collectDrop (0, 0) nearWin) = Collected
   \<and> difficultySettings (difficulty nearWin)
       = Own \<lparr>dropSpeed = 2000, spawnRate = 1000, targetScore = 25, name = ''Normal''\<rparr>
   \<and> score (snd (collectDrop (0, 0) nearWin)) = 25
   \<and> isPlaying (snd (collectDrop (0, 0) nearWin))
   \<and> gameOverTitle (snd (collectDrop (0, 0) nearWin)) = None"
  by (simp add: nearWin_def started_eq newGame_def collectDrop_def checkMilestones_def
      difficultySettings_def)

text \<open>
  Claim C1, amended: \<open>collectDrop\<close> never ends the session (it leaves \<open>isPlaying\<close> and the
  dialog as they are); once a collection has raised the score to the target of the
  current difficulty, the next firing of the 50 ms game interval while the game is
  playing and not paused ends the session with the winning dialog.
\<close>

theorem collect_leaves_win_to_pulse:
  "isPlaying (snd (collectDrop i s)) = isPlaying s
   \<and> gameOverTitle (snd (collectDrop i s)) = gameOverTitle s
   \<and> modalShown (snd (collectDrop i s)) = modalShown s
   \<and> (isPlaying s \<and> \<not> isPaused s \<and> gameInterval s \<noteq> None
        \<and> difficultySettings (difficulty s) = Own st
        \<and> targetScore st \<le> score (snd (collectDrop i s)) \<longrightarrow>
          \<not> isPlaying (step (GamePulse g) (snd (collectDrop i s)))
          \<and> gameOverTitle (step (GamePulse g) (snd (collectDrop i s))) = Some Congratulations
          \<and> modalShown (step (GamePulse g) (snd (collectDrop i s))))"
proof -
  let ?s1 = "snd (collectDrop i s)"
  have "\<not> isPlaying (step (GamePulse g) ?s1)
        \<and> gameOverTitle (step (GamePulse g) ?s1) = Some Congratulations
        \<and> modalShown (step (GamePulse g) ?s1)"
    if h: "isPlaying s" "\<not> isPaused s" "gameInterval s \<noteq> None"
      "difficultySettings (difficulty s) = Own st" "targetScore st \<le> score ?s1"
  proof -
    have "gamePulse g ?s1 = Inr ((updateDrops g ?s1)\<lparr>isPlaying := False, gameInterval := None,
                 dropSpawnInterval := None, timerInterval := None,
                 gameOverTitle := Some Congratulations, modalShown := True\<rparr>)"
      using gamePulse_win[of ?s1 st g] h by (simp add: collectDrop_fields)
    then show ?thesis using h(3) by (auto simp: collectDrop_fields)
  qed
  then show ?thesis by (simp add: collectDrop_fields)
qed

theorem collect_leaves_win_to_pulse_witness:
  "isPlaying nearWin \<and> \<not> isPaused nearWin \<and> gameInterval nearWin \<noteq> None
   \<and> difficultySettings (difficulty nearWin)
       = Own \<lparr>dropSpeed = 2000, spawnRate = 1000, targetScore = 25, name = ''Normal''\<rparr>
   \<and> 25 \<le> score (snd (collectDrop (0, 0) nearWin))
   \<and> isPlaying (snd (collectDrop (0, 0) nearWin))
   \<and> \<not> isPlaying (step (GamePulse anyGeometry) (snd (collectDrop (0, 0) nearWin)))
   \<and> gameOverTitle (step (GamePulse anyGeometry) (snd (collectDrop (0, 0) nearWin)))
       = Some Congratulations"
  using collect_leaves_win_to_pulse[of "(0, 0)" nearWin
      "\<lparr>dropSpeed = 2000, spawnRate = 1000, targetScore = 25, name = ''Normal''\<rparr>" anyGeometry]
  by (simp add: nearWin_def started_eq newGame_def collectDrop_def checkMilestones_def
      difficultySettings_def)

section \<open>Expiry of drops\<close>

text \<open>
  Claim C2, as stated: a live, uncollected drop is expired exactly when the time since
  its spawn has reached the fall duration. \<open>updateDrops\<close> does not look at the time: a drop
  spawned at 0 on the default difficulty (fall duration 2000) is kept at time 5000 when
  its element is still inside the game area, and removed at time 50 when its element is
  below the area.
\<close>

theorem expiry_by_time_counterexample:
  "difficultySettings (difficulty oneDrop)
       = Own \<lparr>dropSpeed = 2000, spawnRate = 1000, targetScore = 25, name = ''Normal''\<rparr>
   \<and> spec_expired 5000 2000 \<lparr>dropId = (0, 0), collected = False\<rparr>
   \<and> drops (updateDrops anyGeometry oneDrop) = [\<lparr>dropId = (0, 0), collected = False\<rparr>]
   \<and> \<not> spec_expired 50 2000 \<lparr>dropId = (0, 0), collected = False\<rparr>
   \<and> drops (updateDrops belowGeometry oneDrop) = []"
  by (simp add: oneDrop_def started_eq newGame_def difficultySettings_def spec_expired_def
      spawnedAtMs_def updateDrops_def fallen_def anyGeometry_def belowGeometry_def)

text \<open>
  Claim C2, amended: an invocation of \<open>updateDrops\<close> keeps exactly the drops that are not
  collected and whose element's top is not below the bottom edge of the game area at
  that invocation, in their order; nothing else of the game changes.
\<close>

theorem expiry_by_position:
  "drops (updateDrops g s)
     = filter (\<lambda>d. \<not> collected d \<and> rectTop g (dropId d) \<le> areaBottom g) (drops s)
   \<and> updateDrops g s = s\<lparr>drops := drops (updateDrops g s)\<rparr>"
proof -
  have "(\<lambda>d. if collected d then False else if fallen g d then False else True)
        = (\<lambda>d. \<not> collected d \<and> rectTop g (dropId d) \<le> areaBottom g)"
    by (auto simp: fallen_def)
  then show ?thesis by (simp add: updateDrops_def)
qed

section \<open>Collecting a drop twice\<close>

text \<open>
  Claim C3: two calls of \<open>collectDrop\<close> with the same id in a row. The second call changes
  nothing and never succeeds; if the first succeeded it raised the score by exactly one
  and the second takes the already-collected return; over both calls the score rises by
  one if the first succeeded and by nothing otherwise.
\<close>

theorem collect_twice:
  "snd (collectDrop i (snd (collectDrop i s))) = snd (collectDrop i s)
   \<and> fst (collectDrop i (snd (collectDrop i s))) \<noteq> Collected
   \<and> (fst (collectDrop i s) = Collected \<longrightarrow>
        score (snd (collectDrop i s)) = score s + 1
        \<and> fst (collectDrop i (snd (collectDrop i s))) = AlreadyCollected)
   \<and> score (snd (collectDrop i (snd (collectDrop i s))))
       = score s + (if fst (collectDrop i s) = Collected then 1 else 0)"
proof -
  let ?P = "\<lambda>d. dropId d = i"
  consider (nf) "fst (collectDrop i s) = NotFound" "snd (collectDrop i s) = s"
    | (ac) "fst (collectDrop i s) = AlreadyCollected" "snd (collectDrop i s) = s"
    | (ok) k where "fst (collectDrop i s) = Collected" "findIndex ?P (drops s) = Some k"
        "drops (snd (collectDrop i s)) = (drops s)[k := (drops s ! k)\<lparr>collected := True\<rparr>]"
        "score (snd (collectDrop i s)) = score s + 1"
    using collectDrop_cases[of i s] by blast
  then show ?thesis
  proof cases
    case nf
    then show ?thesis by simp
  next
    case ac
    then show ?thesis by simp
  next
    case ok
    let ?s1 = "snd (collectDrop i s)"
    from findIndex_Some_D[OF ok(2)] have k: "k < length (drops s)" by simp
    have meq: "map dropId (drops ?s1) = map dropId (drops s)"
      using k by (simp add: ok(3) map_update list_update_same_conv)
    have fi: "findIndex ?P xs = findIndex (\<lambda>x. x = i) (map dropId xs)" for xs
      by (rule findIndex_map)
    have "findIndex ?P (drops ?s1) = findIndex ?P (drops s)"
      by (simp only: fi meq)
    then have "findIndex ?P (drops ?s1) = Some k"
      using ok(2) by simp
    moreover have "collected (drops ?s1 ! k)"
      using k by (simp add: ok(3))
    ultimately have "collectDrop i ?s1 = (AlreadyCollected, ?s1)"
      by (simp add: collectDrop_def)
    with ok show ?thesis by simp
  qed
qed

theorem collect_twice_witness:
  "fst (collectDrop (0, 0) oneDrop) = Collected
   \<and> score (snd (collectDrop (0, 0) oneDrop)) = 1
   \<and> fst (collectDrop (0, 0) (snd (collectDrop (0, 0) oneDrop))) = AlreadyCollected
   \<and> score (snd (collectDrop (0, 0) (snd (collectDrop (0, 0) oneDrop)))) = 1"
  using collect_twice[of "(0, 0)" oneDrop]
  by (simp add: oneDrop_def started_eq newGame_def collectDrop_def checkMilestones_def)

section \<open>Milestones\<close>

text \<open>
  Claim C5: over any sequence of evaluations (non-decreasing or not) the reported batches
  never repeat a threshold, nor report one achieved before the sequence; an evaluation
  at a score at or below that of the evaluation before it reports nothing and changes
  nothing but the score it was given; with distinct thresholds a batch is the not yet
  achieved thresholds at or below the score, in the order of the configured list; and on
  the constructor's thresholds \<open>[10, 20, 30]\<close> the scores 5, 10, 15, 25, 30 report
  \<open>[]\<close>, \<open>[10]\<close>, \<open>[]\<close>, \<open>[20]\<close>, \<open>[30]\<close>.
\<close>

theorem milestones_reported_once:
  "distinct (concat (evaluateAll vs s))
   \<and> set (concat (evaluateAll vs s)) \<inter> set (achievedMilestones s) = {}
   \<and> (b \<le> a \<longrightarrow> evaluate b (snd (evaluate a s)) = ([], (snd (evaluate a s))\<lparr>score := b\<rparr>))
   \<and> (distinct (milestones s) \<longrightarrow>
        fst (evaluate v s)
          = filter (\<lambda>m. m \<le> v \<and> m \<notin> set (achievedMilestones s)) (milestones s))
   \<and> evaluateAll [5, 10, 15, 25, 30] newGame = [[], [10], [], [20], [30]]"
proof -
  have "evaluateAll [5, 10, 15, 25, 30] newGame = [[], [10], [], [20], [30]]"
    by (simp add: evaluate_def checkMilestones_def newGame_def)
  moreover have "fst (evaluate v s)
          = filter (\<lambda>m. m \<le> v \<and> m \<notin> set (achievedMilestones s)) (milestones s)"
    if "distinct (milestones s)"
    using milestoneLoop_filter[OF that, of v "achievedMilestones s"]
    by (simp add: evaluate_simps)
  ultimately show ?thesis
    using evaluateAll_fresh[of vs s] evaluate_again[of b a s] by blast
qed

theorem milestones_reported_once_witness:
  "(10::int) \<le> 25
   \<and> distinct (milestones newGame)
   \<and> fst (evaluate 25 newGame) = [10, 20]
   \<and> evaluate 10 (snd (evaluate 25 newGame)) = ([], (snd (evaluate 25 newGame))\<lparr>score := 10\<rparr>)
   \<and> distinct (concat (evaluateAll [5, 10, 15, 25, 30] newGame))"
  using milestones_reported_once[of "[5, 10, 15, 25, 30]" newGame 10 25 25]
  by (simp add: evaluate_def checkMilestones_def newGame_def)

section \<open>Transitions that do nothing\<close>

text \<open>
  Claim C6: \<open>togglePause\<close> (the handler behind both pause and resume) while the game is not
  playing, and \<open>startGame\<close> while it is playing, return normally with the game object
  unchanged.
\<close>

theorem noop_transitions:
  "(\<not> isPlaying s \<longrightarrow> togglePause s = s \<and> step PauseClick s = s)
   \<and> (isPlaying s \<longrightarrow> startGame s = Inr s \<and> step StartClick s = s)"
  by (simp add: togglePause_def startGame_def)

theorem noop_transitions_witness:
  "\<not> isPlaying newGame \<and> togglePause newGame = newGame
   \<and> isPlaying (newGame\<lparr>isPlaying := True\<rparr>)
   \<and> startGame (newGame\<lparr>isPlaying := True\<rparr>) = Inr (newGame\<lparr>isPlaying := True\<rparr>)"
  using noop_transitions[of newGame] noop_transitions[of "newGame\<lparr>isPlaying := True\<rparr>"]
  by (simp add: newGame_def)

section \<open>Starting again\<close>

text \<open>
  Claim C7: \<open>startGame\<close> on a game that is not playing (so also after a game has ended)
  leaves score and time at 0 and the drops and the achieved milestones empty, with the
  game playing and not paused; on a difficulty of the table the result is the reset
  object with the flags and the three intervals set.
\<close>

theorem restart_resets:
  assumes "\<not> isPlaying s"
  shows "score (after (startGame s)) = 0
     \<and> gameTime (after (startGame s)) = 0
     \<and> drops (after (startGame s)) = []
     \<and> achievedMilestones (after (startGame s)) = []
     \<and> isPlaying (after (startGame s))
     \<and> \<not> isPaused (after (startGame s))
     \<and> (difficultySettings (difficulty s) = Own st \<longrightarrow>
          startGame s = Inr ((resetGame s)\<lparr>isPlaying := True, isPaused := False,
             dropSpawnInterval := Some (spawnRate st), gameInterval := Some 50,
             timerInterval := Some 1000\<rparr>))"
  using assms
  by (auto simp: startGame_def startGameLoop_def resetGame_def clearIntervals_def
      startTimer_def split: option.splits lookup.splits)

theorem restart_resets_witness:
  "\<not> isPlaying wonGame \<and> score wonGame = 25 \<and> achievedMilestones wonGame = [10, 20]
   \<and> score (after (startGame wonGame)) = 0
   \<and> gameTime (after (startGame wonGame)) = 0
   \<and> drops (after (startGame wonGame)) = []
   \<and> achievedMilestones (after (startGame wonGame)) = []
   \<and> isPlaying (after (startGame wonGame))
   \<and> difficultySettings (difficulty wonGame)
       = Own \<lparr>dropSpeed = 2000, spawnRate = 1000, targetScore = 25, name = ''Normal''\<rparr>
   \<and> startGame wonGame = Inr ((resetGame wonGame)\<lparr>isPlaying := True, isPaused := False,
         dropSpawnInterval := Some 1000, gameInterval := Some 50,
         timerInterval := Some 1000\<rparr>)"
proof -
  let ?st = "\<lparr>dropSpeed = 2000, spawnRate = 1000, targetScore = 25, name = ''Normal''\<rparr>"
  have a: "\<not> isPlaying wonGame" "score wonGame = 25" "achievedMilestones wonGame = [10, 20]"
    "difficultySettings (difficulty wonGame) = Own ?st"
    by (simp_all add: wonGame_eq newGame_def difficultySettings_def)
  have r: "spawnRate ?st = 1000" by simp
  from restart_resets[OF a(1), of ?st] a show ?thesis unfolding r by blast
qed

section \<open>A difficulty key outside the table\<close>

text \<open>
  Claim C8, as stated: starting with a key absent from the table fails and leaves the
  session idle and unchanged. With the selector set to \<open>extreme\<close>, \<open>startGame\<close> on the idle
  game does fail, but only in \<open>startGameLoop\<close>, after the reset and after \<open>isPlaying\<close> was
  set; with the selector set to \<open>constructor\<close>, a key absent from the table as well, it
  does not fail at all and starts the three intervals.
\<close>

theorem unknown_difficulty_counterexample:
  "difficultySettings ''extreme'' = Undefined
   \<and> difficulty unknownKeyGame = ''extreme''
   \<and> \<not> isPlaying unknownKeyGame
   \<and> isPlaying (after (startGame unknownKeyGame))
   \<and> after (startGame unknownKeyGame) \<noteq> unknownKeyGame
   \<and> difficultySettings ''constructor'' = Inherited
   \<and> difficulty inheritedKeyGame = ''constructor''
   \<and> \<not> isPlaying inheritedKeyGame
   \<and> startGame inheritedKeyGame
       = Inr (newGame\<lparr>difficulty := ''constructor'', isPlaying := True,
                dropSpawnInterval := Some 0, gameInterval := Some 50,
                timerInterval := Some 1000\<rparr>)"
proof -
  have k: "difficultySettings ''extreme'' = Undefined"
    "difficultySettings ''constructor'' = Inherited"
    by (simp_all add: difficultySettings_def objectPrototypeKeys_def)
  have 1: "unknownKeyGame = newGame\<lparr>difficulty := ''extreme''\<rparr>"
    by (simp add: unknownKeyGame_def selectDifficulty_def updateDifficultyDisplay_def k)
  have 2: "after (startGame unknownKeyGame)
           = newGame\<lparr>difficulty := ''extreme'', isPlaying := True\<rparr>"
    by (simp add: 1 startGame_def startGameLoop_def resetGame_def clearIntervals_def
        k newGame_def)
  have 3: "isPlaying (after (startGame unknownKeyGame)) \<noteq> isPlaying unknownKeyGame"
    unfolding 2 unfolding 1 by (simp add: newGame_def)
  then have 4: "after (startGame unknownKeyGame) \<noteq> unknownKeyGame" by auto
  have 5: "inheritedKeyGame = newGame\<lparr>difficulty := ''constructor''\<rparr>"
    by (simp add: inheritedKeyGame_def selectDifficulty_def updateDifficultyDisplay_def k)
  have 6: "startGame inheritedKeyGame
       = Inr (newGame\<lparr>difficulty := ''constructor'', isPlaying := True,
                dropSpawnInterval := Some 0, gameInterval := Some 50,
                timerInterval := Some 1000\<rparr>)"
    by (simp add: 5 startGame_def startGameLoop_def resetGame_def clearIntervals_def
        startTimer_def k newGame_def)
  have 7: "difficulty unknownKeyGame = ''extreme''" "\<not> isPlaying unknownKeyGame"
    "difficulty inheritedKeyGame = ''constructor''" "\<not> isPlaying inheritedKeyGame"
    by (simp_all add: 1 5 newGame_def)
  from k 3 4 6 7 show ?thesis by blast
qed

text \<open>
  Claim C8, amended: a key is looked up as \<open>undefined\<close> exactly when it is neither one of
  the three keys of the table nor the name of a member inherited from \<open>Object.prototype\<close>.
  For every such key, \<open>startGame\<close> on a game that is not playing raises an error (the
  \<open>TypeError\<close> of reading a field of the missing setting), leaving the game reset and
  marked as playing and not paused, with no interval running. For every key that names
  an inherited member, \<open>startGame\<close> raises nothing and starts the session with the spawn
  interval at delay 0. The lookup alone (\<open>updateDifficultyDisplay\<close>) never changes the
  game, whether it raises or not.
\<close>

theorem unknown_difficulty_raises:
  assumes "\<not> isPlaying s"
  shows "(difficultySettings key = Undefined \<longleftrightarrow>
            key \<notin> set [''easy'', ''normal'', ''hard''] \<and> key \<notin> set objectPrototypeKeys)
     \<and> (difficultySettings (difficulty s) = Undefined \<longrightarrow>
          startGame s = Inl (TypeError, (resetGame s)\<lparr>isPlaying := True, isPaused := False\<rparr>)
          \<and> gameInterval (after (startGame s)) = None
          \<and> dropSpawnInterval (after (startGame s)) = None
          \<and> timerInterval (after (startGame s)) = None
          \<and> updateDifficultyDisplay s = Inl (TypeError, s))
     \<and> (difficultySettings (difficulty s) = Inherited \<longrightarrow>
          startGame s = Inr ((resetGame s)\<lparr>isPlaying := True, isPaused := False,
             dropSpawnInterval := Some 0, gameInterval := Some 50,
             timerInterval := Some 1000\<rparr>)
          \<and> updateDifficultyDisplay s = Inr s)
     \<and> after (updateDifficultyDisplay s) = s"
proof -
  have a: "difficultySettings key = Undefined \<longleftrightarrow>
            key \<notin> set [''easy'', ''normal'', ''hard''] \<and> key \<notin> set objectPrototypeKeys"
    by (simp add: difficultySettings_def)
  have b: "startGame s = Inl (TypeError, (resetGame s)\<lparr>isPlaying := True, isPaused := False\<rparr>)
          \<and> gameInterval (after (startGame s)) = None
          \<and> dropSpawnInterval (after (startGame s)) = None
          \<and> timerInterval (after (startGame s)) = None
          \<and> updateDifficultyDisplay s = Inl (TypeError, s)"
    if "difficultySettings (difficulty s) = Undefined"
    using that assms
    by (simp add: startGame_def startGameLoop_def resetGame_def clearIntervals_def
        updateDifficultyDisplay_def)
  have c: "startGame s = Inr ((resetGame s)\<lparr>isPlaying := True, isPaused := False,
             dropSpawnInterval := Some 0, gameInterval := Some 50,
             timerInterval := Some 1000\<rparr>)
          \<and> updateDifficultyDisplay s = Inr s"
    if "difficultySettings (difficulty s) = Inherited"
    using that assms
    by (simp add: startGame_def startGameLoop_def resetGame_def clearIntervals_def
        startTimer_def updateDifficultyDisplay_def)
  have d: "after (updateDifficultyDisplay s) = s"
    by (simp add: updateDifficultyDisplay_def split: lookup.splits)
  from a b c d show ?thesis by blast
qed

theorem unknown_difficulty_raises_witness:
  "\<not> isPlaying unknownKeyGame
   \<and> difficultySettings (difficulty unknownKeyGame) = Undefined
   \<and> startGame unknownKeyGame
       = Inl (TypeError, (resetGame unknownKeyGame)\<lparr>isPlaying := True, isPaused := False\<rparr>)
   \<and> timerInterval (after (startGame unknownKeyGame)) = None
   \<and> \<not> isPlaying inheritedKeyGame
   \<and> difficultySettings (difficulty inheritedKeyGame) = Inherited
   \<and> startGame inheritedKeyGame
       = Inr ((resetGame inheritedKeyGame)\<lparr>isPlaying := True, isPaused := False,
             dropSpawnInterval := Some 0, gameInterval := Some 50,
             timerInterval := Some 1000\<rparr>)"
proof -
  have k: "difficultySettings ''extreme'' = Undefined"
    "difficultySettings ''constructor'' = Inherited"
    by (simp_all add: difficultySettings_def objectPrototypeKeys_def)
  have 1: "unknownKeyGame = newGame\<lparr>difficulty := ''extreme''\<rparr>"
    by (simp add: unknownKeyGame_def selectDifficulty_def updateDifficultyDisplay_def k)
  have 2: "inheritedKeyGame = newGame\<lparr>difficulty := ''constructor''\<rparr>"
    by (simp add: inheritedKeyGame_def selectDifficulty_def updateDifficultyDisplay_def k)
  have h: "\<not> isPlaying unknownKeyGame"
    "difficultySettings (difficulty unknownKeyGame) = Undefined"
    "\<not> isPlaying inheritedKeyGame"
    "difficultySettings (difficulty inheritedKeyGame) = Inherited"
    by (simp_all add: 1 2 k newGame_def)
  from unknown_difficulty_raises[OF h(1), of "''extreme''"]
    unknown_difficulty_raises[OF h(3), of "''constructor''"] h
  show ?thesis by blast
qed

section \<open>The timer while paused\<close>

text \<open>
  Claim C9: a click on the pause button of a playing, unpaused game pauses it without
  touching \<open>gameTime\<close>; over any sequence of events that follows without another click on
  that button (timer, spawn and game intervals firing any number of times, clicks on
  drops, on the other buttons and on the selector) the game stays paused and \<open>gameTime\<close>
  keeps the value it had at the pause; the click that resumes leaves it at that value,
  and the next firing of the timer interval after the resume makes it exactly one more.
\<close>

theorem pause_freezes_timer:
  assumes "isPlaying r" and "\<not> isPaused r" and "PauseClick \<notin> set es"
  shows "isPaused (step PauseClick r)
     \<and> gameTime (step PauseClick r) = gameTime r
     \<and> isPaused (run es (step PauseClick r))
     \<and> gameTime (run es (step PauseClick r)) = gameTime r
     \<and> \<not> isPaused (step PauseClick (run es (step PauseClick r)))
     \<and> gameTime (step PauseClick (run es (step PauseClick r))) = gameTime r
     \<and> (timerInterval r \<noteq> None \<longrightarrow>
          gameTime (step TimerPulse (step PauseClick (run es (step PauseClick r))))
            = gameTime r + 1)"
proof -
  let ?s = "step PauseClick r"
  let ?p = "run es ?s"
  have s: "isPlaying ?s" "isPaused ?s" "gameTime ?s = gameTime r"
    "timerInterval ?s = timerInterval r"
    using assms(1,2) by (simp_all add: togglePause_def)
  from paused_run[OF s(1,2) assms(3)] s(3,4)
  have p: "isPlaying ?p" "isPaused ?p" "gameTime ?p = gameTime r"
    "timerInterval ?p = timerInterval r" by simp_all
  have q: "\<not> isPaused (step PauseClick ?p)" "gameTime (step PauseClick ?p) = gameTime r"
    "isPlaying (step PauseClick ?p)" "timerInterval (step PauseClick ?p) = timerInterval r"
    using p by (simp_all add: togglePause_def)
  have t: "gameTime (step TimerPulse (step PauseClick ?p)) = gameTime r + 1"
    if "timerInterval r \<noteq> None"
    using q that by (simp add: timerPulse_def)
  from s p q t show ?thesis by blast
qed

theorem pause_freezes_timer_witness:
  "isPlaying started \<and> \<not> isPaused started
   \<and> PauseClick \<notin> set [TimerPulse, SpawnPulse 5 7, TimerPulse, GamePulse anyGeometry]
   \<and> timerInterval started \<noteq> None
   \<and> gameTime (run [TimerPulse, SpawnPulse 5 7, TimerPulse, GamePulse anyGeometry]
        (step PauseClick started)) = gameTime started
   \<and> gameTime (step TimerPulse (step PauseClick
        (run [TimerPulse, SpawnPulse 5 7, TimerPulse, GamePulse anyGeometry]
          (step PauseClick started))))
       = gameTime started + 1"
proof -
  have p: "isPlaying started" "\<not> isPaused started" "timerInterval started \<noteq> None"
    by (simp_all add: started_eq newGame_def)
  have e: "PauseClick \<notin> set [TimerPulse, SpawnPulse 5 7, TimerPulse, GamePulse anyGeometry]"
    by simp
  from pause_freezes_timer[OF p(1,2) e] p e show ?thesis by blast
qed

section \<open>Ending a session\<close>

text \<open>
  Claim C10: an event turns \<open>isPlaying\<close> off only if it is a firing of the game interval on
  a game that is not paused whose score has reached the target of its difficulty, and
  then the dialog title is the winning one; on a playing, unpaused game with a
  difficulty of the table such a firing ends the session exactly when the score has
  reached the target; and no sequence of events from the constructor's state ever sets
  the losing title, which only \<open>endGame(false)\<close> sets.
\<close>

theorem only_a_win_ends:
  "(isPlaying s \<and> \<not> isPlaying (step e s) \<longrightarrow>
      (\<exists>g. e = GamePulse g) \<and> \<not> isPaused s \<and> gameInterval s \<noteq> None
      \<and> (\<exists>st. difficultySettings (difficulty s) = Own st \<and> targetScore st \<le> score s)
      \<and> gameOverTitle (step e s) = Some Congratulations)
   \<and> (isPlaying s \<and> \<not> isPaused s \<and> gameInterval s \<noteq> None
        \<and> difficultySettings (difficulty s) = Own st \<longrightarrow>
          (\<not> isPlaying (step (GamePulse g) s) \<longleftrightarrow> targetScore st \<le> score s))
   \<and> gameOverTitle (run es newGame) \<noteq> Some KeepTrying"
proof -
  have 1: "(\<exists>g. e = GamePulse g) \<and> \<not> isPaused s \<and> gameInterval s \<noteq> None
      \<and> (\<exists>st. difficultySettings (difficulty s) = Own st \<and> targetScore st \<le> score s)
      \<and> gameOverTitle (step e s) = Some Congratulations"
    if h: "isPlaying s" "\<not> isPlaying (step e s)"
  proof -
    from step_keeps_playing[OF h(1), of e] h(2) obtain g where g: "e = GamePulse g" by blast
    from pulse_ends[OF h(1), of g] h(2) g show ?thesis by simp
  qed
  have 2: "\<not> isPlaying (step (GamePulse g) s) \<longleftrightarrow> targetScore st \<le> score s"
    if h: "isPlaying s" "\<not> isPaused s" "gameInterval s \<noteq> None"
      "difficultySettings (difficulty s) = Own st"
    using gamePulse_win[OF h(1,2,4), of g] h(1,3) by (auto simp: updateDrops_fields)
  have 3: "gameOverTitle (run es newGame) \<noteq> Some KeepTrying"
    by (rule run_title) (simp add: newGame_def)
  from 1 2 3 show ?thesis by blast
qed

theorem only_a_win_ends_witness:
  "isPlaying (snd (collectDrop (0, 0) nearWin))
   \<and> \<not> isPlaying (step (GamePulse anyGeometry) (snd (collectDrop (0, 0) nearWin)))
   \<and> \<not> isPaused (snd (collectDrop (0, 0) nearWin))
   \<and> gameInterval (snd (collectDrop (0, 0) nearWin)) \<noteq> None
   \<and> gameOverTitle (step (GamePulse anyGeometry) (snd (collectDrop (0, 0) nearWin)))
       = Some Congratulations
   \<and> isPlaying nearWin \<and> \<not> isPaused nearWin \<and> gameInterval nearWin \<noteq> None
   \<and> difficultySettings (difficulty nearWin)
       = Own \<lparr>dropSpeed = 2000, spawnRate = 1000, targetScore = 25, name = ''Normal''\<rparr>
   \<and> isPlaying (step (GamePulse anyGeometry) nearWin)
   \<and> score nearWin < 25"
proof -
  let ?w = "snd (collectDrop (0, 0) nearWin)"
  let ?st = "\<lparr>dropSpeed = 2000, spawnRate = 1000, targetScore = 25, name = ''Normal''\<rparr>"
  have a: "isPlaying ?w" "\<not> isPaused ?w" "gameInterval ?w \<noteq> None"
    "isPlaying nearWin" "\<not> isPaused nearWin" "gameInterval nearWin \<noteq> None"
    "difficultySettings (difficulty nearWin) = Own ?st" "score nearWin < 25"
    by (simp_all add: collectDrop_fields nearWin_def started_eq newGame_def
        difficultySettings_def)
  have b: "\<not> isPlaying (step (GamePulse anyGeometry) ?w)"
    using wonGame_eq by (simp add: wonGame_def newGame_def)
  have c: "isPlaying (step (GamePulse anyGeometry) nearWin)"
    using only_a_win_ends[of nearWin "GamePulse anyGeometry" ?st anyGeometry "[]"] a by simp
  from only_a_win_ends[of ?w "GamePulse anyGeometry" ?st anyGeometry "[]"] a b c
  show ?thesis by blast
qed

section \<open>Score and outcomes of drops\<close>




end
